theory Spec2Isabelle
  imports Main
begin

section \<open>The object factory of \<^verbatim>\<open>src/soap/base/objectfactory.hpp\<close>\<close>

text \<open>
  The header defines the class template \<^verbatim>\<open>ObjectFactory<key_t, T>\<close>, the function template
  \<^verbatim>\<open>create_policy_new<parent, T>\<close> and the class template \<^verbatim>\<open>ObjectFactoryRegister<object_type>\<close>.
  Member functions are modelled by explicit state passing: each takes the factory
  (\<^verbatim>\<open>*this\<close>) and returns its result together with the factory afterwards. Functions that
  allocate also take and return the free store. A call of a registered creator runs code
  from outside the header: it may return a pointer or throw, it may change the free store
  and it may come back to the factory; a call through a null function pointer has
  undefined behaviour, which is the result \<open>None\<close>.
\<close>

subsection \<open>The free store and \<^verbatim>\<open>new T()\<close>\<close>

text \<open>
  A pointer is an address; address \<open>0\<close> is the null pointer. The free store is the list of
  live objects, newest first, each with the address it lives at and its dynamic type
  (\<open>'ty\<close> ranges over the concrete classes derived from the abstract type \<^verbatim>\<open>T\<close>). The
  upcast from \<^verbatim>\<open>T*\<close> to \<^verbatim>\<open>parent*\<close> keeps the address and the dynamic type. The store is
  unbounded: \<^verbatim>\<open>std::bad_alloc\<close> is not modelled, and a default constructor \<^verbatim>\<open>T()\<close> returns
  normally.
\<close>

type_synonym addr = nat

type_synonym 'ty heap = "(addr \<times> 'ty) list"

definition fresh :: "'ty heap \<Rightarrow> addr" where
  \<comment> \<open>the allocator's choice: an address above every live one, never null\<close>
  "fresh h = Suc (foldr max (map fst h) 0)"

definition new_obj :: "'ty \<Rightarrow> 'ty heap \<Rightarrow> addr \<times> 'ty heap" where
  \<comment> \<open>\<^verbatim>\<open>new T()\<close>\<close>
  "new_obj ty h = (let a = fresh h in (a, (a, ty) # h))"

text \<open>The exceptions: the header itself throws a \<^verbatim>\<open>std::runtime_error\<close> only, which carries
  its message; a creator may throw that or an exception of any other class.\<close>

datatype error = runtime_error string | other_exception string

text \<open>
  \<^verbatim>\<open>typedef T* (*creator_t)();\<close> is a pointer to any function without arguments that
  returns a \<^verbatim>\<open>T*\<close>. The pointer may be null. Otherwise it points to a function of the
  program, which has no arguments but reaches the free store and, through \<^verbatim>\<open>Instance()\<close>,
  the factory: given the answers of \<^verbatim>\<open>IsRegistered\<close> and the free store, the function
  returns a pointer or throws, leaves a free store behind, and has made a list of
  \<^verbatim>\<open>Register\<close> calls on the factory, in this order. The pointer returned is any address:
  null, an object that exists already, or a new one. A creator that calls \<^verbatim>\<open>Create\<close>
  itself, or that assigns to the factory as a whole, is outside this type.
\<close>

datatype ('k, 'ty) creator_t =
    nullptr
  | Function "('k \<Rightarrow> bool) \<Rightarrow> 'ty heap
                \<Rightarrow> (error + addr) \<times> 'ty heap \<times> ('k \<times> ('k, 'ty) creator_t) list"

text \<open>\<^verbatim>\<open>template<class parent, class T> parent* create_policy_new() { return new T(); }\<close>:
  the function allocates, returns the new pointer and does not touch the factory.\<close>

definition create_policy_new :: "'ty \<Rightarrow> ('k, 'ty) creator_t" where
  "create_policy_new ty =
     Function (\<lambda>registered h. case new_obj ty h of (p, h') \<Rightarrow> (Inr p, h', []))"

subsection \<open>\<^verbatim>\<open>std::map\<close>\<close>

text \<open>
  \<^verbatim>\<open>typedef std::map<key_t, creator_t> assoc_map;\<close> is a finite map with unique keys. The
  key's ordering is taken to be a total order, so that two keys are equivalent for the
  map exactly when they are equal. \<^verbatim>\<open>find\<close> returns \<^verbatim>\<open>end()\<close> (\<open>None\<close>) or the entry;
  \<^verbatim>\<open>insert\<close> adds the pair only when the key has no entry, and its \<^verbatim>\<open>.second\<close> tells
  whether it did.
\<close>

type_synonym ('k, 'ty) assoc_map = "'k \<rightharpoonup> ('k, 'ty) creator_t"

definition map_find :: "'k \<Rightarrow> ('k \<rightharpoonup> 'v) \<Rightarrow> 'v option" where
  "map_find key m = m key"

definition map_insert :: "'k \<times> 'v \<Rightarrow> ('k \<rightharpoonup> 'v) \<Rightarrow> bool \<times> ('k \<rightharpoonup> 'v)" where
  "map_insert kv m =
     (case m (fst kv) of
        None \<Rightarrow> (True, m(fst kv \<mapsto> snd kv))
      | Some _ \<Rightarrow> (False, m))"

subsection \<open>\<^verbatim>\<open>ObjectFactory<key_t, T>\<close>\<close>

record ('k, 'ty) ObjectFactory =
  objects :: "('k, 'ty) assoc_map"    \<comment> \<open>the private member \<^verbatim>\<open>_objects\<close>\<close>

text \<open>\<^verbatim>\<open>ObjectFactory() {}\<close>: the map member is default-constructed, hence empty.\<close>

definition ObjectFactory_ctor :: "('k, 'ty) ObjectFactory" where
  "ObjectFactory_ctor = \<lparr>objects = Map.empty\<rparr>"

definition Register ::
  "'k \<Rightarrow> ('k, 'ty) creator_t \<Rightarrow> ('k, 'ty) ObjectFactory \<Rightarrow> ('k, 'ty) ObjectFactory" where
  \<comment> \<open>\<^verbatim>\<open>(void)_objects.insert(typename assoc_map::value_type(key, creator)).second;\<close>\<close>
  "Register key creator this =
     (let (second, m) = map_insert (key, creator) (objects this)
      in this\<lparr>objects := m\<rparr>)"

definition Register_obj_t ::
  "'ty \<Rightarrow> 'k \<Rightarrow> ('k, 'ty) ObjectFactory \<Rightarrow> ('k, 'ty) ObjectFactory" where
  \<comment> \<open>\<^verbatim>\<open>Register(key, create_policy_new<abstract_type, obj_t>);\<close>\<close>
  "Register_obj_t obj_t key this = Register key (create_policy_new obj_t) this"

definition IsRegistered ::
  "'k \<Rightarrow> ('k, 'ty) ObjectFactory \<Rightarrow> bool \<times> ('k, 'ty) ObjectFactory" where
  \<comment> \<open>\<^verbatim>\<open>return ( _objects.find(_id)!= _objects.end() );\<close>\<close>
  "IsRegistered key_id this = (map_find key_id (objects this) \<noteq> None, this)"

text \<open>
  The call \<^verbatim>\<open>(it->second)()\<close> of a creator. The factory passed is the one the creator
  reaches through \<^verbatim>\<open>Instance()\<close>, taken to be the factory that holds the creator; the
  \<^verbatim>\<open>Register\<close> calls the creator made are applied to it in order.
\<close>

fun Register_each ::
  "('k \<times> ('k, 'ty) creator_t) list \<Rightarrow> ('k, 'ty) ObjectFactory \<Rightarrow> ('k, 'ty) ObjectFactory" where
  "Register_each [] this = this"
| "Register_each ((key, creator) # rs) this = Register_each rs (Register key creator this)"

fun invoke ::
  "('k, 'ty) creator_t \<Rightarrow> ('k, 'ty) ObjectFactory \<Rightarrow> 'ty heap
     \<Rightarrow> ((error + addr) \<times> ('k, 'ty) ObjectFactory \<times> 'ty heap) option" where
  "invoke nullptr this h = None"
| "invoke (Function body) this h =
     (case body (\<lambda>key. fst (IsRegistered key this)) h of
        (r, h', rs) \<Rightarrow> Some (r, Register_each rs this, h'))"

text \<open>
  \<^verbatim>\<open>Create\<close> turns the key into text with \<^verbatim>\<open>boost::lexical_cast<std::string>\<close>, which is
  not part of the header; it is the parameter \<open>lexical_cast\<close>. An exception of the creator
  is not caught, so it is the result of \<^verbatim>\<open>Create\<close>.
\<close>

definition Create ::
  "('k \<Rightarrow> string) \<Rightarrow> 'k \<Rightarrow> ('k, 'ty) ObjectFactory \<Rightarrow> 'ty heap
     \<Rightarrow> ((error + addr) \<times> ('k, 'ty) ObjectFactory \<times> 'ty heap) option" where
  "Create lexical_cast key this h =
     (case map_find key (objects this) of
        Some creator \<Rightarrow> invoke creator this h
      | None \<Rightarrow>
          Some (Inl (runtime_error (''factory key '' @ lexical_cast key @ '' not found.'')),
                this, h))"

definition getObjects ::
  "('k, 'ty) ObjectFactory \<Rightarrow> ('k, 'ty) assoc_map \<times> ('k, 'ty) ObjectFactory" where
  \<comment> \<open>\<^verbatim>\<open>const assoc_map &getObjects() { return _objects; }\<close>\<close>
  "getObjects this = (objects this, this)"


subsection \<open>\<^verbatim>\<open>ObjectFactoryRegister<object_type>\<close>\<close>

text \<open>
  The class has no data member, so an instance is the unit value. Its constructor takes
  the factory by reference and makes one call,
  \<^verbatim>\<open>factory.Register(key, &create_policy_new<typename factory_type::abstract_type, object_type>)\<close>.
  The macro \<^verbatim>\<open>REGISTER_OBJECT(factory, object, key)\<close> declares one such instance.
\<close>

definition ObjectFactoryRegister ::
  "'ty \<Rightarrow> ('k, 'ty) ObjectFactory \<Rightarrow> 'k \<Rightarrow> unit \<times> ('k, 'ty) ObjectFactory" where
  "ObjectFactoryRegister object_type factory key =
     ((), Register key (create_policy_new object_type) factory)"

subsection \<open>\<^verbatim>\<open>Instance()\<close> and the function-local statics\<close>

text \<open>
  \<^verbatim>\<open>static ObjectFactory<key_t, T> _this;\<close> inside \<^verbatim>\<open>Instance()\<close> is one object for each
  instantiation of the template, constructed by the first call. The statics of a program
  that instantiates the template at two pairs of types are the record below; \<open>None\<close> is
  a static that has not been constructed yet. \<^verbatim>\<open>Instance()\<close> returns a reference:
  \<open>on_Instance1 m\<close> runs the member function \<open>m\<close> on the first singleton and stores the
  factory that \<open>m\<close> leaves behind, and \<open>on_Instance2\<close> does so on the second.
\<close>

record ('k1, 'ty1, 'k2, 'ty2) statics =
  this1 :: "('k1, 'ty1) ObjectFactory option"
  this2 :: "('k2, 'ty2) ObjectFactory option"

definition Instance1 ::
  "('k1, 'ty1, 'k2, 'ty2) statics
     \<Rightarrow> ('k1, 'ty1) ObjectFactory \<times> ('k1, 'ty1, 'k2, 'ty2) statics" where
  "Instance1 s =
     (case this1 s of
        Some f \<Rightarrow> (f, s)
      | None \<Rightarrow> (ObjectFactory_ctor, s\<lparr>this1 := Some ObjectFactory_ctor\<rparr>))"

definition Instance2 ::
  "('k1, 'ty1, 'k2, 'ty2) statics
     \<Rightarrow> ('k2, 'ty2) ObjectFactory \<times> ('k1, 'ty1, 'k2, 'ty2) statics" where
  "Instance2 s =
     (case this2 s of
        Some f \<Rightarrow> (f, s)
      | None \<Rightarrow> (ObjectFactory_ctor, s\<lparr>this2 := Some ObjectFactory_ctor\<rparr>))"

definition on_Instance1 ::
  "(('k1, 'ty1) ObjectFactory \<Rightarrow> 'r \<times> ('k1, 'ty1) ObjectFactory)
     \<Rightarrow> ('k1, 'ty1, 'k2, 'ty2) statics \<Rightarrow> 'r \<times> ('k1, 'ty1, 'k2, 'ty2) statics" where
  "on_Instance1 m s =
     (let (f, s') = Instance1 s; (r, f') = m f in (r, s'\<lparr>this1 := Some f'\<rparr>))"

definition on_Instance2 ::
  "(('k2, 'ty2) ObjectFactory \<Rightarrow> 'r \<times> ('k2, 'ty2) ObjectFactory)
     \<Rightarrow> ('k1, 'ty1, 'k2, 'ty2) statics \<Rightarrow> 'r \<times> ('k1, 'ty1, 'k2, 'ty2) statics" where
  "on_Instance2 m s =
     (let (f, s') = Instance2 s; (r, f') = m f in (r, s'\<lparr>this2 := Some f'\<rparr>))"

subsection \<open>Sequences of calls\<close>

text \<open>
  The public operations of the header as data, so that properties of every operation and
  of every sequence of operations can be stated. \<open>exec\<close> performs one call on a factory
  and the free store; its result is \<open>None\<close> when the call has undefined behaviour. \<open>run\<close>
  performs a list of calls in order, a caller that catches the exception of a failed
  \<^verbatim>\<open>Create\<close> and goes on; a call with undefined behaviour ends the run, which returns
  the last state reached.
\<close>

datatype ('k, 'ty) call =
    Call_Register 'k "('k, 'ty) creator_t"
  | Call_Register_obj_t 'ty 'k
  | Call_Create 'k
  | Call_IsRegistered 'k
  | Call_getObjects
  | New_ObjectFactoryRegister 'ty 'k

datatype ('k, 'ty) outcome =
    Void
  | Pointer addr
  | Boolean bool
  | Map_view "('k, 'ty) assoc_map"
  | Token unit
  | Thrown error

fun exec ::
  "('k \<Rightarrow> string) \<Rightarrow> ('k, 'ty) call \<Rightarrow> ('k, 'ty) ObjectFactory \<times> 'ty heap
     \<Rightarrow> (('k, 'ty) outcome \<times> ('k, 'ty) ObjectFactory \<times> 'ty heap) option" where
  "exec lc (Call_Register key creator) (this, h) = Some (Void, Register key creator this, h)"
| "exec lc (Call_Register_obj_t obj_t key) (this, h) =
     Some (Void, Register_obj_t obj_t key this, h)"
| "exec lc (Call_Create key) (this, h) =
     (case Create lc key this h of
        None \<Rightarrow> None
      | Some (Inl e, this', h') \<Rightarrow> Some (Thrown e, this', h')
      | Some (Inr p, this', h') \<Rightarrow> Some (Pointer p, this', h'))"
| "exec lc (Call_IsRegistered key) (this, h) =
     (let (b, this') = IsRegistered key this in Some (Boolean b, this', h))"
| "exec lc Call_getObjects (this, h) =
     (let (m, this') = getObjects this in Some (Map_view m, this', h))"
| "exec lc (New_ObjectFactoryRegister object_type key) (this, h) =
     (let (t, this') = ObjectFactoryRegister object_type this key in Some (Token t, this', h))"

fun run ::
  "('k \<Rightarrow> string) \<Rightarrow> ('k, 'ty) call list \<Rightarrow> ('k, 'ty) ObjectFactory \<times> 'ty heap
     \<Rightarrow> ('k, 'ty) ObjectFactory \<times> 'ty heap" where
  "run lc [] s = s"
| "run lc (c # cs) s =
     (case exec lc c s of
        None \<Rightarrow> s
      | Some (r, s') \<Rightarrow> run lc cs s')"

subsection \<open>Example classes\<close>

text \<open>Two concrete classes of an abstract \<^verbatim>\<open>Reader\<close>, used where a property is evaluated
  on a concrete factory; their keys are strings, which \<^verbatim>\<open>lexical_cast\<close> returns as they
  are.\<close>

datatype reader = JsonReader | XmlReader

text \<open>Two creators written by hand: one throws, the other allocates a \<^verbatim>\<open>JsonReader\<close> and,
  before it returns, registers \<^verbatim>\<open>XmlReader\<close> under the key \<^verbatim>\<open>"xml"\<close> in the factory.\<close>

definition throwing_creator :: "(string, reader) creator_t" where
  "throwing_creator = Function (\<lambda>registered h. (Inl (runtime_error ''boom''), h, []))"

definition registering_creator :: "(string, reader) creator_t" where
  "registering_creator =
     Function (\<lambda>registered h. case new_obj JsonReader h of
        (p, h') \<Rightarrow> (Inr p, h', [(''xml'', create_policy_new XmlReader)]))"

subsection \<open>The convenience overload as the specification words it\<close>

text \<open>
  The specification describes \<^verbatim>\<open>Register<ConcreteType>(key)\<close> as wrapping "a constructor that
  allocates a new \<^verbatim>\<open>ConcreteType\<close> and returns it upcast to \<^verbatim>\<open>AbstractType\<close>" and
  delegating to the basic \<^verbatim>\<open>Register\<close>. This definition follows those words; it is compared
  with \<open>Register_obj_t\<close>, which follows the header.
\<close>

definition Register_ConcreteType_spec ::
  "'ty \<Rightarrow> 'k \<Rightarrow> ('k, 'ty) ObjectFactory \<Rightarrow> ('k, 'ty) ObjectFactory" where
  "Register_ConcreteType_spec ConcreteType key registry =
     Register key
       (Function (\<lambda>registered h. case new_obj ConcreteType h of (p, h') \<Rightarrow> (Inr p, h', [])))
       registry"

section \<open>Properties\<close>

subsection \<open>Basic facts\<close>

lemma objects_Register:
  "objects (Register k c this) =
     (case objects this k of None \<Rightarrow> (objects this)(k \<mapsto> c) | Some c0 \<Rightarrow> objects this)"
  by (simp add: Register_def map_insert_def split: option.split)

lemma Register_registered: "objects this k = Some c0 \<Longrightarrow> Register k c this = this"
  by (simp add: Register_def map_insert_def)

lemma objects_Register_same:
  "objects (Register k c this) k = Some (case objects this k of None \<Rightarrow> c | Some c0 \<Rightarrow> c0)"
  by (simp add: objects_Register split: option.split)

lemma objects_Register_other: "k' \<noteq> k \<Longrightarrow> objects (Register k c this) k' = objects this k'"
  by (simp add: objects_Register split: option.split)

lemma Register_keeps_entry:
  "objects this k = Some c \<Longrightarrow> objects (Register k' c' this) k = Some c"
  by (cases "k' = k") (simp_all add: objects_Register_same objects_Register_other)

lemma Register_each_keeps_entry:
  "objects this k = Some c \<Longrightarrow> objects (Register_each rs this) k = Some c"
proof (induction rs arbitrary: this)
  case Nil
  then show ?case by simp
next
  case (Cons r rs)
  obtain k' c' where r: "r = (k', c')" by (cases r)
  from Cons.prems have "objects (Register k' c' this) k = Some c"
    by (rule Register_keeps_entry)
  then show ?case
    by (simp add: r Cons.IH)
qed

lemma fresh_above: "a \<in> fst ` set h \<Longrightarrow> a < fresh h"
  by (induction h) (force simp: fresh_def less_Suc_eq_le max_def)+

lemma fresh_not_live: "fresh h \<notin> fst ` set h"
  using fresh_above [of "fresh h" h] by auto

lemma invoke_create_policy_new:
  "invoke (create_policy_new A) this h = Some (Inr (fresh h), this, (fresh h, A) # h)"
  by (simp add: create_policy_new_def new_obj_def Let_def)

lemma invoke_keeps_entry:
  "objects this k = Some c \<Longrightarrow> invoke creator this h = Some (r, this', h')
     \<Longrightarrow> objects this' k = Some c"
  by (cases creator) (auto split: prod.splits simp: Register_each_keeps_entry)

lemma invoke_throwing_creator:
  "invoke throwing_creator this h = Some (Inl (runtime_error ''boom''), this, h)"
  by (simp add: throwing_creator_def)

lemma invoke_registering_creator:
  "invoke registering_creator this h =
     Some (Inr (fresh h), Register ''xml'' (create_policy_new XmlReader) this,
           (fresh h, JsonReader) # h)"
  by (simp add: registering_creator_def new_obj_def Let_def)

lemma Create_registered:
  "objects this k = Some creator \<Longrightarrow> Create lc k this h = invoke creator this h"
  by (simp add: Create_def map_find_def)

lemma Create_unregistered:
  "objects this k = None \<Longrightarrow>
     Create lc k this h =
       Some (Inl (runtime_error (''factory key '' @ lc k @ '' not found.'')), this, h)"
  by (simp add: Create_def map_find_def)

lemma Create_cases:
  "Create lc k this h =
     (case fst (getObjects this) k of
        Some creator \<Rightarrow> invoke creator this h
      | None \<Rightarrow>
          Some (Inl (runtime_error (''factory key '' @ lc k @ '' not found.'')), this, h))"
  by (simp add: Create_def getObjects_def map_find_def split: option.split)

lemma Create_keeps_entry:
  "objects this k = Some c \<Longrightarrow> Create lc key this h = Some (r, this', h')
     \<Longrightarrow> objects this' k = Some c"
  by (cases "objects this key")
    (auto simp: Create_unregistered Create_registered dest: invoke_keeps_entry)

lemma Register_obj_t_unregistered:
  "objects this k = None \<Longrightarrow> objects (Register_obj_t A k this) k = Some (create_policy_new A)"
  by (simp add: Register_obj_t_def objects_Register)

lemma on_Instance1_eq:
  "on_Instance1 m s =
     (fst (m (fst (Instance1 s))), s\<lparr>this1 := Some (snd (m (fst (Instance1 s))))\<rparr>)"
  by (simp add: on_Instance1_def Instance1_def split: option.split prod.split)

lemma on_Instance2_eq:
  "on_Instance2 m s =
     (fst (m (fst (Instance2 s))), s\<lparr>this2 := Some (snd (m (fst (Instance2 s))))\<rparr>)"
  by (simp add: on_Instance2_def Instance2_def split: option.split prod.split)

lemma ObjectFactoryRegister_eq:
  "ObjectFactoryRegister A factory key = ((), Register_obj_t A key factory)"
  by (simp add: ObjectFactoryRegister_def Register_obj_t_def)

lemma Instance1_this2: "fst (Instance1 (s\<lparr>this2 := x\<rparr>)) = fst (Instance1 s)"
  by (simp add: Instance1_def split: option.split)

lemma Instance2_this1: "fst (Instance2 (s\<lparr>this1 := x\<rparr>)) = fst (Instance2 s)"
  by (simp add: Instance2_def split: option.split)

subsection \<open>Failure of \<^verbatim>\<open>Create\<close>\<close>

text \<open>
  C1. For every key \<open>k\<close>: when no constructor is registered under \<open>k\<close>, \<^verbatim>\<open>Create(k)\<close> fails
  with the \<^verbatim>\<open>runtime_error\<close> whose message holds the key as text, and leaves the factory
  and the free store as they were; when a constructor is registered under \<open>k\<close>,
  \<^verbatim>\<open>Create(k)\<close> is the call of that constructor, so it returns the constructor's pointer
  and lets an exception of the constructor through. Among all the operations, a call
  throws exactly when it is a \<^verbatim>\<open>Create\<close> and either the key is unregistered, with the key
  error, or the registered constructor throws, with that exception; and a call has
  undefined behaviour exactly when it is a \<^verbatim>\<open>Create\<close> of a key that holds the null
  pointer.
\<close>

theorem Create_throws_key_error_or_creator_error:
  "Create lc k this h =
       (case fst (getObjects this) k of
          Some creator \<Rightarrow> invoke creator this h
        | None \<Rightarrow>
            Some (Inl (runtime_error (''factory key '' @ lc k @ '' not found.'')), this, h))
   \<and> (exec lc c (this, h) = Some (Thrown e, s')) =
       (\<exists>key. c = Call_Create key \<and>
          (case fst (getObjects this) key of
             Some creator \<Rightarrow> invoke creator this h = Some (Inl e, s')
           | None \<Rightarrow>
               e = runtime_error (''factory key '' @ lc key @ '' not found.'')
               \<and> s' = (this, h)))
   \<and> (exec lc c (this, h) = None) =
       (\<exists>key. c = Call_Create key \<and> fst (getObjects this) key = Some nullptr)"
proof -
  have thrown: "(exec lc c (this, h) = Some (Thrown e, s')) =
       (\<exists>key. c = Call_Create key \<and>
          (case fst (getObjects this) key of
             Some creator \<Rightarrow> invoke creator this h = Some (Inl e, s')
           | None \<Rightarrow>
               e = runtime_error (''factory key '' @ lc key @ '' not found.'')
               \<and> s' = (this, h)))"
  proof (cases c)
    case (Call_Create key)
    show ?thesis
    proof (cases "fst (getObjects this) key")
      case None
      then show ?thesis
        by (auto simp: Call_Create Create_cases [of lc key])
    next
      case (Some creator)
      then show ?thesis
        by (auto simp: Call_Create Create_cases [of lc key] split: option.splits sum.splits)
    qed
  qed (simp_all add: IsRegistered_def getObjects_def ObjectFactoryRegister_def)
  have undefined: "(exec lc c (this, h) = None) =
       (\<exists>key. c = Call_Create key \<and> fst (getObjects this) key = Some nullptr)"
  proof (cases c)
    case (Call_Create key)
    show ?thesis
    proof (cases "fst (getObjects this) key")
      case None
      then show ?thesis
        by (simp add: Call_Create Create_cases [of lc key])
    next
      case (Some creator)
      then show ?thesis
        by (cases creator)
          (auto simp: Call_Create Create_cases [of lc key] split: prod.splits sum.splits)
    qed
  qed (simp_all add: IsRegistered_def getObjects_def ObjectFactoryRegister_def)
  show ?thesis
    using thrown undefined Create_cases [of lc k this h] by simp
qed

text \<open>Failure is not confined to unregistered keys: with a constructor that throws
  registered under \<^verbatim>\<open>"boom"\<close>, \<^verbatim>\<open>Create("boom")\<close> raises that constructor's error.\<close>

theorem Create_registered_key_throws:
  "fst (IsRegistered ''boom'' (Register ''boom'' throwing_creator ObjectFactory_ctor))
   \<and> Create id ''boom'' (Register ''boom'' throwing_creator ObjectFactory_ctor) []
       = Some (Inl (runtime_error ''boom''),
               Register ''boom'' throwing_creator ObjectFactory_ctor, [])"
proof -
  have reg: "objects (Register ''boom'' throwing_creator ObjectFactory_ctor) ''boom''
      = Some throwing_creator"
    by (simp add: objects_Register_same ObjectFactory_ctor_def)
  show ?thesis
    by (simp add: IsRegistered_def map_find_def reg Create_registered [OF reg]
        invoke_throwing_creator)
qed

subsection \<open>Insert-if-absent\<close>



subsection \<open>\<^verbatim>\<open>IsRegistered\<close>\<close>

text \<open>
  C4. For every key \<open>k\<close> and every registry state, \<^verbatim>\<open>IsRegistered(k)\<close> returns true exactly
  when a constructor is registered under \<open>k\<close> in that registry, and it leaves the registry
  as it was; it has no failure result.
\<close>

theorem IsRegistered_iff_registered:
  "fst (IsRegistered k this) = (\<exists>creator. fst (getObjects this) k = Some creator)
   \<and> snd (IsRegistered k this) = this"
  by (simp add: IsRegistered_def getObjects_def map_find_def)

subsection \<open>Fresh instances\<close>

text \<open>
  C3. After class \<open>A\<close> has been registered under a key \<open>k\<close> that had no entry, every
  \<^verbatim>\<open>Create(k)\<close> returns a pointer to a newly allocated object of dynamic type \<open>A\<close>: the
  pointer is not null, no object lived at it before, and the free store gains exactly
  that object. Two calls in a row return different pointers, and so does any later call
  made while the first object is still live. The factory is the same after each call: it
  holds constructors only, never an instance.
\<close>

theorem Create_fresh_distinct:
  fixes this :: "('k, 'ty) ObjectFactory"
  assumes "\<not> fst (IsRegistered k this)"
  shows "\<exists>p1 p2.
      Create lc k (Register_obj_t A k this) h
        = Some (Inr p1, Register_obj_t A k this, (p1, A) # h)
    \<and> p1 \<noteq> 0 \<and> p1 \<notin> fst ` set h
    \<and> Create lc k (Register_obj_t A k this) ((p1, A) # h)
        = Some (Inr p2, Register_obj_t A k this, (p2, A) # (p1, A) # h)
    \<and> p2 \<noteq> 0 \<and> p2 \<notin> fst ` set ((p1, A) # h)
    \<and> p1 \<noteq> p2
    \<and> (\<forall>h'. p1 \<in> fst ` set h' \<longrightarrow>
          (\<exists>p. Create lc k (Register_obj_t A k this) h'
                 = Some (Inr p, Register_obj_t A k this, (p, A) # h')
               \<and> p \<noteq> p1 \<and> p \<noteq> 0 \<and> p \<notin> fst ` set h'))"
proof -
  let ?f = "Register_obj_t A k this"
  from assms have "objects this k = None"
    by (simp add: IsRegistered_def map_find_def)
  then have reg: "objects ?f k = Some (create_policy_new A)"
    by (rule Register_obj_t_unregistered)
  have create: "Create lc k ?f g = Some (Inr (fresh g), ?f, (fresh g, A) # g)" for g
    using Create_registered [OF reg, of lc g] by (simp add: invoke_create_policy_new)
  define p1 where "p1 = fresh h"
  define p2 where "p2 = fresh ((p1, A) # h)"
  have c1: "Create lc k ?f h = Some (Inr p1, ?f, (p1, A) # h)"
    by (simp add: create p1_def)
  have c2: "Create lc k ?f ((p1, A) # h) = Some (Inr p2, ?f, (p2, A) # (p1, A) # h)"
    by (simp add: create p2_def)
  have n1: "p1 \<noteq> 0 \<and> p1 \<notin> fst ` set h"
    using fresh_not_live [of h] by (simp add: p1_def fresh_def)
  have n2: "p2 \<noteq> 0 \<and> p2 \<notin> fst ` set ((p1, A) # h)"
    using fresh_not_live [of "(p1, A) # h"] by (simp add: p2_def fresh_def)
  then have d: "p1 \<noteq> p2"
    by auto
  have any: "\<forall>h'. p1 \<in> fst ` set h' \<longrightarrow>
          (\<exists>p. Create lc k ?f h' = Some (Inr p, ?f, (p, A) # h')
               \<and> p \<noteq> p1 \<and> p \<noteq> 0 \<and> p \<notin> fst ` set h')"
  proof (intro allI impI)
    fix h' :: "'ty heap"
    assume "p1 \<in> fst ` set h'"
    then have "p1 < fresh h'" by (rule fresh_above)
    moreover have "fresh h' \<noteq> 0" by (simp add: fresh_def)
    ultimately show "\<exists>p. Create lc k ?f h' = Some (Inr p, ?f, (p, A) # h')
               \<and> p \<noteq> p1 \<and> p \<noteq> 0 \<and> p \<notin> fst ` set h'"
      using fresh_not_live [of h'] by (intro exI [of _ "fresh h'"]) (simp add: create)
  qed
  from c1 n1 c2 n2 d any show ?thesis
    by blast
qed

theorem Create_fresh_distinct_witness:
  "\<not> fst (IsRegistered ''a'' (ObjectFactory_ctor :: (string, reader) ObjectFactory))
   \<and> Create (\<lambda>s. s) ''a'' (Register_obj_t JsonReader ''a'' ObjectFactory_ctor) []
       = Some (Inr 1, Register_obj_t JsonReader ''a'' ObjectFactory_ctor, [(1, JsonReader)])
   \<and> Create (\<lambda>s. s) ''a'' (Register_obj_t JsonReader ''a'' ObjectFactory_ctor)
         [(1, JsonReader)]
       = Some (Inr 2, Register_obj_t JsonReader ''a'' ObjectFactory_ctor,
               [(2, JsonReader), (1, JsonReader)])"
proof -
  have unreg: "\<not> fst (IsRegistered ''a'' (ObjectFactory_ctor :: (string, reader) ObjectFactory))"
    by (simp add: IsRegistered_def map_find_def ObjectFactory_ctor_def)
  obtain p1 p2 where
    c1: "Create (\<lambda>s. s) ''a'' (Register_obj_t JsonReader ''a'' ObjectFactory_ctor) []
          = Some (Inr p1, Register_obj_t JsonReader ''a'' ObjectFactory_ctor,
                  [(p1, JsonReader)])"
    and c2: "Create (\<lambda>s. s) ''a'' (Register_obj_t JsonReader ''a'' ObjectFactory_ctor)
          [(p1, JsonReader)]
          = Some (Inr p2, Register_obj_t JsonReader ''a'' ObjectFactory_ctor,
                  [(p2, JsonReader), (p1, JsonReader)])"
    and fresh: "p1 \<noteq> 0" "p2 \<noteq> 0" "p1 \<noteq> p2"
    using Create_fresh_distinct [OF unreg, of "\<lambda>s. s" JsonReader "[]"] by blast
  have reg: "objects (Register_obj_t JsonReader ''a''
      (ObjectFactory_ctor :: (string, reader) ObjectFactory)) ''a''
        = Some (create_policy_new JsonReader)"
    by (simp add: Register_obj_t_def objects_Register ObjectFactory_ctor_def)
  have "p1 = 1"
    using c1 by (simp add: Create_registered [OF reg] invoke_create_policy_new fresh_def)
  moreover have "p2 = 2"
    using c2 \<open>p1 = 1\<close>
    by (simp add: Create_registered [OF reg] invoke_create_policy_new fresh_def)
  ultimately show ?thesis
    using unreg c1 c2 by simp
qed

subsection \<open>The self-registration token\<close>

text \<open>
  C5. Constructing an \<^verbatim>\<open>ObjectFactoryRegister<A>\<close> with a factory and a key performs one
  registration, that of class \<open>A\<close> under the key in that factory, and yields a token
  without state. The registration is visible: afterwards the key is registered, the set
  of keys has grown by that key and by nothing else, and when the key was free it now
  holds the constructor of \<open>A\<close>, so that \<^verbatim>\<open>Create\<close> of the key returns a new object of
  class \<open>A\<close>; when the key was taken, the factory is as it was. No other entry of the map
  changes, and when the factory is one of the singletons, the other singleton is as it
  was.
\<close>

theorem ObjectFactoryRegister_one_Register:
  "ObjectFactoryRegister A factory key = ((), Register_obj_t A key factory)
   \<and> ObjectFactoryRegister A factory key = ((), Register key (create_policy_new A) factory)
   \<and> fst (IsRegistered key (snd (ObjectFactoryRegister A factory key)))
   \<and> fst (getObjects (snd (ObjectFactoryRegister A factory key))) key
       = Some (case fst (getObjects factory) key of
                 None \<Rightarrow> create_policy_new A | Some c0 \<Rightarrow> c0)
   \<and> dom (fst (getObjects (snd (ObjectFactoryRegister A factory key))))
       = insert key (dom (fst (getObjects factory)))
   \<and> objects (snd (ObjectFactoryRegister A factory key))
       = (objects factory)(key := objects (snd (ObjectFactoryRegister A factory key)) key)
   \<and> (\<not> fst (IsRegistered key factory) \<longrightarrow>
         fst (getObjects (snd (ObjectFactoryRegister A factory key))) key
           = Some (create_policy_new A)
       \<and> Create lc key (snd (ObjectFactoryRegister A factory key)) h
           = Some (Inr (fresh h), snd (ObjectFactoryRegister A factory key),
                   (fresh h, A) # h)
       \<and> fresh h \<noteq> 0 \<and> fresh h \<notin> fst ` set h)
   \<and> (fst (IsRegistered key factory) \<longrightarrow>
         snd (ObjectFactoryRegister A factory key) = factory)
   \<and> exec lc (New_ObjectFactoryRegister A key) (factory, h)
       = Some (Token (), Register_obj_t A key factory, h)
   \<and> on_Instance1 (\<lambda>f. ObjectFactoryRegister A f key) s
       = ((), s\<lparr>this1 := Some (Register_obj_t A key (fst (Instance1 s)))\<rparr>)
   \<and> this2 (snd (on_Instance1 (\<lambda>f. ObjectFactoryRegister A f key) s)) = this2 s
   \<and> on_Instance2 (\<lambda>f. ObjectFactoryRegister B f key2) s
       = ((), s\<lparr>this2 := Some (Register_obj_t B key2 (fst (Instance2 s)))\<rparr>)
   \<and> this1 (snd (on_Instance2 (\<lambda>f. ObjectFactoryRegister B f key2) s)) = this1 s"
proof -
  let ?f = "Register_obj_t A key factory"
  have entry: "objects ?f key
      = Some (case objects factory key of None \<Rightarrow> create_policy_new A | Some c0 \<Rightarrow> c0)"
    by (simp add: Register_obj_t_def objects_Register_same)
  have keys: "dom (objects ?f) = insert key (dom (objects factory))"
    by (auto simp: Register_obj_t_def objects_Register split: option.splits if_splits)
  have frame: "objects ?f = (objects factory)(key := objects ?f key)"
    by (rule ext) (simp add: Register_obj_t_def objects_Register_other)
  have free: "objects ?f key = Some (create_policy_new A)
      \<and> Create lc key ?f h = Some (Inr (fresh h), ?f, (fresh h, A) # h)
      \<and> fresh h \<noteq> 0 \<and> fresh h \<notin> fst ` set h"
    if "objects factory key = None"
  proof -
    have reg: "objects ?f key = Some (create_policy_new A)"
      using that by (rule Register_obj_t_unregistered)
    then show ?thesis
      using fresh_not_live [of h]
      by (simp add: Create_registered [OF reg] invoke_create_policy_new fresh_def)
  qed
  have taken: "?f = factory" if "objects factory key = Some c0" for c0
    using that by (simp add: Register_obj_t_def Register_registered)
  have a: "fst (IsRegistered key ?f)"
    by (simp add: IsRegistered_def map_find_def entry)
  have b: "\<not> fst (IsRegistered key factory) \<longrightarrow>
         fst (getObjects ?f) key = Some (create_policy_new A)
       \<and> Create lc key ?f h = Some (Inr (fresh h), ?f, (fresh h, A) # h)
       \<and> fresh h \<noteq> 0 \<and> fresh h \<notin> fst ` set h"
    using free by (simp add: IsRegistered_def map_find_def getObjects_def)
  have c: "fst (IsRegistered key factory) \<longrightarrow> ?f = factory"
    using taken by (auto simp: IsRegistered_def map_find_def)
  have d: "fst (getObjects ?f) key
       = Some (case fst (getObjects factory) key of
                 None \<Rightarrow> create_policy_new A | Some c0 \<Rightarrow> c0)"
    using entry by (simp add: getObjects_def)
  have e: "dom (fst (getObjects ?f)) = insert key (dom (fst (getObjects factory)))"
    using keys by (simp add: getObjects_def)
  have g: "ObjectFactoryRegister A factory key = ((), Register key (create_policy_new A) factory)"
    by (simp add: ObjectFactoryRegister_def)
  have i1: "on_Instance1 (\<lambda>f. ObjectFactoryRegister A f key) s
       = ((), s\<lparr>this1 := Some (Register_obj_t A key (fst (Instance1 s)))\<rparr>)"
    by (simp add: on_Instance1_eq ObjectFactoryRegister_eq)
  have i2: "on_Instance2 (\<lambda>f. ObjectFactoryRegister B f key2) s
       = ((), s\<lparr>this2 := Some (Register_obj_t B key2 (fst (Instance2 s)))\<rparr>)"
    by (simp add: on_Instance2_eq ObjectFactoryRegister_eq)
  have j1: "this2 (snd (on_Instance1 (\<lambda>f. ObjectFactoryRegister A f key) s)) = this2 s"
    by (simp add: i1)
  have j2: "this1 (snd (on_Instance2 (\<lambda>f. ObjectFactoryRegister B f key2) s)) = this1 s"
    by (simp add: i2)
  have x: "exec lc (New_ObjectFactoryRegister A key) (factory, h)
       = Some (Token (), Register_obj_t A key factory, h)"
    by (simp add: ObjectFactoryRegister_eq)
  have tok: "snd (ObjectFactoryRegister A factory key) = ?f"
    by (simp add: ObjectFactoryRegister_eq)
  show ?thesis
    unfolding tok
    by (intro conjI ObjectFactoryRegister_eq g a b c d e frame x i1 j1 i2 j2)
qed


theorem ObjectFactoryRegister_one_Register_witness:
  "\<not> fst (IsRegistered ''json'' (ObjectFactory_ctor :: (string, reader) ObjectFactory))
   \<and> fst (IsRegistered ''json''
        (snd (ObjectFactoryRegister JsonReader ObjectFactory_ctor ''json'')))
   \<and> Create (\<lambda>s. s) ''json''
         (snd (ObjectFactoryRegister JsonReader ObjectFactory_ctor ''json'')) []
       = Some (Inr 1, snd (ObjectFactoryRegister JsonReader ObjectFactory_ctor ''json''),
               [(1, JsonReader)])
   \<and> snd (ObjectFactoryRegister XmlReader
        (snd (ObjectFactoryRegister JsonReader ObjectFactory_ctor ''json'')) ''json'')
       = snd (ObjectFactoryRegister JsonReader ObjectFactory_ctor ''json'')"
proof -
  let ?C = "ObjectFactory_ctor :: (string, reader) ObjectFactory"
  let ?F = "snd (ObjectFactoryRegister JsonReader ?C ''json'')"
  let ?h = "[] :: reader heap"
  have free: "\<not> fst (IsRegistered ''json'' ?C)"
    by (simp add: IsRegistered_def map_find_def ObjectFactory_ctor_def)
  have one: "fresh ([] :: reader heap) = 1"
    by (simp add: fresh_def)
  have taken: "fst (IsRegistered ''json'' ?F)"
    by (rule ObjectFactoryRegister_one_Register
      [where A = JsonReader and key = "''json''" and factory = ?C, THEN conjunct2, THEN conjunct2, THEN conjunct1])
  have "\<not> fst (IsRegistered ''json'' ?C) \<longrightarrow>
      fst (getObjects ?F) ''json'' = Some (create_policy_new JsonReader)
      \<and> Create (\<lambda>s. s) ''json'' ?F ?h = Some (Inr (fresh ?h), ?F, (fresh ?h, JsonReader) # ?h)
      \<and> fresh ?h \<noteq> 0 \<and> fresh ?h \<notin> fst ` set ?h"
    by (rule ObjectFactoryRegister_one_Register
      [where A = JsonReader and key = "''json''" and factory = ?C
         and lc = "\<lambda>s. s" and h = ?h, THEN conjunct2, THEN conjunct2, THEN conjunct2, THEN conjunct2, THEN conjunct2, THEN conjunct2, THEN conjunct1])
  with free have created: "Create (\<lambda>s. s) ''json'' ?F [] = Some (Inr 1, ?F, [(1, JsonReader)])"
    by (simp add: one)
  have "fst (IsRegistered ''json'' ?F) \<longrightarrow>
      snd (ObjectFactoryRegister XmlReader ?F ''json'') = ?F"
    by (rule ObjectFactoryRegister_one_Register
      [where A = XmlReader and key = "''json''" and factory = ?F, THEN conjunct2, THEN conjunct2, THEN conjunct2, THEN conjunct2, THEN conjunct2, THEN conjunct2, THEN conjunct2, THEN conjunct1])
  with taken have again: "snd (ObjectFactoryRegister XmlReader ?F ''json'') = ?F"
    by (rule rev_mp)
  from free taken created again show ?thesis
    by (intro conjI)
qed

subsection \<open>The convenience overload\<close>

text \<open>
  C6. For every key \<open>k\<close>, \<^verbatim>\<open>Register<ConcreteType>(k)\<close> of the header is the basic
  \<^verbatim>\<open>Register(k, c)\<close> with \<open>c\<close> the constructor that allocates a new \<^verbatim>\<open>ConcreteType\<close> and
  returns it as a pointer to the abstract type: the two leave the same factory behind,
  and \<^verbatim>\<open>Create\<close> of any key behaves the same afterwards.
\<close>

theorem Register_obj_t_refines_spec:
  "Register_obj_t A k this = Register_ConcreteType_spec A k this
   \<and> fst (getObjects (Register_obj_t A k this))
       = fst (getObjects (Register_ConcreteType_spec A k this))
   \<and> Create lc k' (Register_obj_t A k this) h
       = Create lc k' (Register_ConcreteType_spec A k this) h"
proof -
  have "Register_obj_t A k this = Register_ConcreteType_spec A k this"
    by (simp add: Register_obj_t_def Register_ConcreteType_spec_def create_policy_new_def)
  then show ?thesis by simp
qed

subsection \<open>The view of the map\<close>

text \<open>
  C7. After three registrations under pairwise different keys \<open>a\<close>, \<open>b\<close>, \<open>c\<close> on a newly
  constructed factory, \<^verbatim>\<open>getObjects()\<close> returns the map with exactly these three keys,
  each with the constructor registered under it, and the call leaves the factory as it
  was.
\<close>

theorem getObjects_three_keys:
  assumes "distinct [a, b, c]"
  shows "fst (getObjects (Register c cc (Register b cb (Register a ca ObjectFactory_ctor))))
           = [a \<mapsto> ca, b \<mapsto> cb, c \<mapsto> cc]
    \<and> dom (fst (getObjects (Register c cc (Register b cb (Register a ca ObjectFactory_ctor)))))
           = {a, b, c}
    \<and> snd (getObjects (Register c cc (Register b cb (Register a ca ObjectFactory_ctor))))
           = Register c cc (Register b cb (Register a ca ObjectFactory_ctor))"
  using assms by (auto simp: getObjects_def objects_Register ObjectFactory_ctor_def)

theorem getObjects_three_keys_witness:
  "distinct [''a'', ''b'', ''c'']
   \<and> fst (getObjects
        (Register ''c'' (create_policy_new JsonReader)
          (Register ''b'' (create_policy_new XmlReader)
            (Register ''a'' (create_policy_new JsonReader) ObjectFactory_ctor))))
       = [''a'' \<mapsto> create_policy_new JsonReader, ''b'' \<mapsto> create_policy_new XmlReader,
          ''c'' \<mapsto> create_policy_new JsonReader]
   \<and> dom (fst (getObjects
        (Register ''c'' (create_policy_new JsonReader)
          (Register ''b'' (create_policy_new XmlReader)
            (Register ''a'' (create_policy_new JsonReader) ObjectFactory_ctor)))))
       = {''a'', ''b'', ''c''}"
proof -
  have keys: "distinct [''a'', ''b'', ''c'']"
    by simp
  show ?thesis
    using keys
      getObjects_three_keys [OF keys, of "create_policy_new JsonReader"
        "create_policy_new XmlReader" "create_policy_new JsonReader"]
    by blast
qed

subsection \<open>Independent singletons\<close>

text \<open>
  C8. The singletons of two instantiations of the template share nothing: a \<^verbatim>\<open>Register\<close>
  on one leaves the other as it was, and the answer of \<^verbatim>\<open>IsRegistered\<close> on the other is
  the same before and after, for every key.
\<close>

theorem singletons_independent:
  "this2 (snd (on_Instance1 (\<lambda>f. ((), Register x c f)) s)) = this2 s
   \<and> fst (on_Instance2 (IsRegistered y) (snd (on_Instance1 (\<lambda>f. ((), Register x c f)) s)))
       = fst (on_Instance2 (IsRegistered y) s)
   \<and> this1 (snd (on_Instance2 (\<lambda>f. ((), Register y d f)) s)) = this1 s
   \<and> fst (on_Instance1 (IsRegistered x) (snd (on_Instance2 (\<lambda>f. ((), Register y d f)) s)))
       = fst (on_Instance1 (IsRegistered x) s)"
  by (simp add: on_Instance1_eq on_Instance2_eq Instance1_this2 Instance2_this1)

subsection \<open>Registrations stay\<close>

lemma exec_keeps_entry:
  assumes "objects this k = Some c" and "exec lc call (this, h) = Some (r, this', h')"
  shows "objects this' k = Some c"
proof (cases call)
  case (Call_Create key)
  with assms(2) obtain r0 where "Create lc key this h = Some (r0, this', h')"
    by (auto split: option.splits sum.splits)
  with assms(1) show ?thesis
    by (rule Create_keeps_entry)
next
  case (Call_Register key creator)
  with assms show ?thesis
    by (auto simp: Register_keeps_entry)
next
  case (Call_Register_obj_t obj_t key)
  with assms show ?thesis
    by (auto simp: Register_obj_t_def Register_keeps_entry)
next
  case (New_ObjectFactoryRegister obj_t key)
  with assms show ?thesis
    by (auto simp: ObjectFactoryRegister_def Register_keeps_entry)
qed (use assms in \<open>auto simp: IsRegistered_def getObjects_def\<close>)

lemma run_keeps_entry:
  "objects (fst s) k = Some c \<Longrightarrow> objects (fst (run lc calls s)) k = Some c"
proof (induction calls arbitrary: s)
  case Nil
  then show ?case by simp
next
  case (Cons call calls)
  obtain this h where s: "s = (this, h)" by (cases s)
  show ?case
  proof (cases "exec lc call s")
    case None
    with Cons.prems show ?thesis by simp
  next
    case (Some res)
    obtain r this' h' where res: "res = (r, this', h')" by (cases res)
    from Cons.prems Some have "objects this' k = Some c"
      unfolding s res by (auto intro: exec_keeps_entry)
    then have "objects (fst (run lc calls (this', h'))) k = Some c"
      by (simp add: Cons.IH)
    with Some show ?thesis by (simp add: res)
  qed
qed

text \<open>
  C9. Once \<^verbatim>\<open>IsRegistered(k)\<close> is true it stays true after any sequence of operations
  (\<^verbatim>\<open>Register\<close> in both forms, token construction, \<^verbatim>\<open>Create\<close>, \<^verbatim>\<open>IsRegistered\<close>,
  \<^verbatim>\<open>getObjects\<close>, with any arguments), and the constructor under \<open>k\<close> is still the same
  one: no operation removes a key, replaces its constructor or empties the map.
\<close>

theorem registration_permanent:
  assumes "fst (IsRegistered k this)"
  shows "fst (IsRegistered k (fst (run lc calls (this, h))))
    \<and> fst (getObjects (fst (run lc calls (this, h)))) k = fst (getObjects this) k"
proof -
  from assms obtain c where "objects this k = Some c"
    by (auto simp: IsRegistered_def map_find_def)
  then show ?thesis
    using run_keeps_entry [of "(this, h)" k c lc calls]
    by (simp add: IsRegistered_def map_find_def getObjects_def)
qed

theorem registration_permanent_witness:
  "fst (IsRegistered ''json'' (Register_obj_t JsonReader ''json'' ObjectFactory_ctor))
   \<and> fst (IsRegistered ''json''
        (fst (run (\<lambda>s. s)
          [Call_Register ''json'' (create_policy_new XmlReader),
           Call_Create ''csv'', Call_Create ''json'', Call_IsRegistered ''xml'',
           Call_Register ''sneaky'' registering_creator, Call_Create ''sneaky'',
           Call_Register ''boom'' throwing_creator, Call_Create ''boom'',
           New_ObjectFactoryRegister XmlReader ''xml'', Call_getObjects,
           Call_Register_obj_t XmlReader ''json'']
          (Register_obj_t JsonReader ''json'' ObjectFactory_ctor, []))))
   \<and> fst (getObjects
        (fst (run (\<lambda>s. s)
          [Call_Register ''json'' (create_policy_new XmlReader),
           Call_Create ''csv'', Call_Create ''json'', Call_IsRegistered ''xml'',
           Call_Register ''sneaky'' registering_creator, Call_Create ''sneaky'',
           Call_Register ''boom'' throwing_creator, Call_Create ''boom'',
           New_ObjectFactoryRegister XmlReader ''xml'', Call_getObjects,
           Call_Register_obj_t XmlReader ''json'']
          (Register_obj_t JsonReader ''json'' ObjectFactory_ctor, [])))) ''json''
       = Some (create_policy_new JsonReader)"
proof -
  have reg: "fst (IsRegistered ''json'' (Register_obj_t JsonReader ''json''
      (ObjectFactory_ctor :: (string, reader) ObjectFactory)))"
    by (simp add: IsRegistered_def map_find_def Register_obj_t_def objects_Register
        ObjectFactory_ctor_def)
  have entry: "fst (getObjects (Register_obj_t JsonReader ''json''
      (ObjectFactory_ctor :: (string, reader) ObjectFactory))) ''json''
        = Some (create_policy_new JsonReader)"
    by (simp add: getObjects_def Register_obj_t_def objects_Register ObjectFactory_ctor_def)
  note perm = registration_permanent [OF reg, of "\<lambda>s. s"
        "[Call_Register ''json'' (create_policy_new XmlReader),
          Call_Create ''csv'', Call_Create ''json'', Call_IsRegistered ''xml'',
          Call_Register ''sneaky'' registering_creator, Call_Create ''sneaky'',
          Call_Register ''boom'' throwing_creator, Call_Create ''boom'',
          New_ObjectFactoryRegister XmlReader ''xml'', Call_getObjects,
          Call_Register_obj_t XmlReader ''json'']" "[]"]
  show ?thesis
    using reg perm [THEN conjunct1] perm [THEN conjunct2, unfolded entry]
    by (intro conjI)
qed

subsection \<open>What \<^verbatim>\<open>Create\<close> does to the factory\<close>

text \<open>
  C10. \<^verbatim>\<open>Create(k)\<close> writes nothing to the map itself. When the call
  fails because the key is unregistered, the factory and the free store after the call
  are those before it. When a constructor is found and invoked, the factory after the
  call is the factory before it with the \<^verbatim>\<open>Register\<close> calls applied that the constructor
  made while it ran: unchanged when the constructor made none, as the constructors of
  \<^verbatim>\<open>create_policy_new\<close> do. In every case each entry present before the call is present
  after it with the same constructor.
\<close>

theorem Create_changes_factory_only_through_creator:
  assumes "Create lc k this h = Some (r, this', h')"
  shows "(fst (getObjects this) k = None \<longrightarrow> this' = this \<and> h' = h)
    \<and> (\<forall>body. fst (getObjects this) k = Some (Function body) \<longrightarrow>
          this' = Register_each
                    (snd (snd (body (\<lambda>key. fst (IsRegistered key this)) h))) this)
    \<and> (\<forall>body. fst (getObjects this) k = Some (Function body)
          \<and> snd (snd (body (\<lambda>key. fst (IsRegistered key this)) h)) = [] \<longrightarrow> this' = this)
    \<and> (\<forall>A. fst (getObjects this) k = Some (create_policy_new A) \<longrightarrow> this' = this)
    \<and> (\<forall>k0 c0. fst (getObjects this) k0 = Some c0 \<longrightarrow>
          fst (getObjects this') k0 = Some c0)"
proof -
  have none: "this' = this \<and> h' = h" if "objects this k = None"
    using assms by (simp add: Create_unregistered [OF that])
  have body: "this' = Register_each
        (snd (snd (body (\<lambda>key. fst (IsRegistered key this)) h))) this"
    if "objects this k = Some (Function body)" for body
    using assms by (auto simp: Create_registered [OF that] split: prod.splits)
  have quiet: "this' = this"
    if "objects this k = Some (Function body)"
      and "snd (snd (body (\<lambda>key. fst (IsRegistered key this)) h)) = []" for body
    using body [OF that(1)] that(2) by simp
  have pol: "this' = this" if "objects this k = Some (create_policy_new A)" for A
    using assms by (simp add: Create_registered [OF that] invoke_create_policy_new)
  have keep: "objects this' k0 = Some c0" if "objects this k0 = Some c0" for k0 c0
    using that assms by (rule Create_keeps_entry)
  show ?thesis
    using none body quiet pol keep by (simp add: getObjects_def)
qed

theorem Create_changes_factory_only_through_creator_witness:
  "Create (\<lambda>s. s) ''sneaky'' (Register ''sneaky'' registering_creator ObjectFactory_ctor) []
     = Some (Inr 1,
             Register ''xml'' (create_policy_new XmlReader)
               (Register ''sneaky'' registering_creator ObjectFactory_ctor),
             [(1, JsonReader)])
   \<and> fst (getObjects (Register ''sneaky'' registering_creator ObjectFactory_ctor)) ''sneaky''
       = Some registering_creator
   \<and> fst (getObjects
        (Register ''xml'' (create_policy_new XmlReader)
          (Register ''sneaky'' registering_creator ObjectFactory_ctor))) ''sneaky''
       = Some registering_creator"
proof -
  let ?F = "Register ''sneaky'' registering_creator ObjectFactory_ctor"
  let ?F' = "Register ''xml'' (create_policy_new XmlReader) ?F"
  have reg: "objects ?F ''sneaky'' = Some registering_creator"
    by (simp add: objects_Register_same ObjectFactory_ctor_def)
  have created: "Create (\<lambda>s. s) ''sneaky'' ?F [] = Some (Inr 1, ?F', [(1, JsonReader)])"
    by (simp add: Create_registered [OF reg] invoke_registering_creator fresh_def)
  have before: "fst (getObjects ?F) ''sneaky'' = Some registering_creator"
    using reg by (simp add: getObjects_def)
  have "\<forall>k0 c0. fst (getObjects ?F) k0 = Some c0 \<longrightarrow> fst (getObjects ?F') k0 = Some c0"
    by (rule Create_changes_factory_only_through_creator
      [OF created, THEN conjunct2, THEN conjunct2, THEN conjunct2, THEN conjunct2])
  with before have after: "fst (getObjects ?F') ''sneaky'' = Some registering_creator"
    by blast
  from created before after show ?thesis
    by (intro conjI)
qed

text \<open>The map need not be the same after \<^verbatim>\<open>Create\<close>: with a constructor under
  \<^verbatim>\<open>"sneaky"\<close> that registers another class, \<^verbatim>\<open>Create("sneaky")\<close> leaves a map with one
  more key.\<close>

theorem Create_registering_creator_changes_map:
  "fst (getObjects (Register ''sneaky'' registering_creator ObjectFactory_ctor)) ''xml'' = None
   \<and> Create id ''sneaky'' (Register ''sneaky'' registering_creator ObjectFactory_ctor) []
       = Some (Inr 1,
               Register ''xml'' (create_policy_new XmlReader)
                 (Register ''sneaky'' registering_creator ObjectFactory_ctor),
               [(1, JsonReader)])
   \<and> fst (getObjects
        (Register ''xml'' (create_policy_new XmlReader)
          (Register ''sneaky'' registering_creator ObjectFactory_ctor))) ''xml''
       = Some (create_policy_new XmlReader)"
proof -
  let ?F = "Register ''sneaky'' registering_creator ObjectFactory_ctor"
  have reg: "objects ?F ''sneaky'' = Some registering_creator"
    by (simp add: objects_Register_same ObjectFactory_ctor_def)
  have unreg: "objects ?F ''xml'' = None"
    by (simp add: objects_Register_other ObjectFactory_ctor_def)
  have created: "Create id ''sneaky'' ?F []
      = Some (Inr 1, Register ''xml'' (create_policy_new XmlReader) ?F, [(1, JsonReader)])"
    by (simp add: Create_registered [OF reg] invoke_registering_creator fresh_def)
  have after: "objects (Register ''xml'' (create_policy_new XmlReader) ?F) ''xml''
      = Some (create_policy_new XmlReader)"
    by (simp add: objects_Register_same unreg)
  from unreg created after show ?thesis
    by (simp add: getObjects_def)
qed

end
